theory Spec2Isabelle
  imports Main "HOL-Library.Word"
begin

section \<open>Bytes, addresses and the struct wire format\<close>

text \<open>
  A Python \<open>bytes\<close> value is a list of 8-bit words. An address is the pair
  \<open>(host, port)\<close> that \<open>recvfrom\<close> returns and \<open>sendto\<close> takes. Python
  integers are unbounded, so \<open>block_num\<close> and \<open>retries\<close> are of type \<open>int\<close>.
\<close>

type_synonym byte = "8 word"
type_synonym bytes = "byte list"
type_synonym address = "string \<times> int"

text \<open>
  The only exception of the source that depends on the data it handles is
  \<open>struct.error\<close>: \<open>struct.unpack("!HH", b)\<close> raises it unless \<open>b\<close> has exactly
  four bytes, \<open>struct.pack("!H", v)\<close> raises it unless \<open>0 \<le> v < 65536\<close>.
\<close>

datatype exn = StructError

fun unpack_HH :: "bytes \<Rightarrow> exn + (int \<times> int)" where
  "unpack_HH [a1, a0, b1, b0] = Inr (uint a1 * 256 + uint a0, uint b1 * 256 + uint b0)"
| "unpack_HH _ = Inl StructError"

definition pack_H :: "int \<Rightarrow> exn + bytes" where
  "pack_H v =
     (if 0 \<le> v \<and> v < 65536 then Inr [word_of_int (v div 256), word_of_int (v mod 256)]
      else Inl StructError)"

definition pack_HH :: "int \<Rightarrow> int \<Rightarrow> exn + bytes" where
  "pack_HH v w =
     (case pack_H v of
        Inl e \<Rightarrow> Inl e
      | Inr a \<Rightarrow> (case pack_H w of Inl e \<Rightarrow> Inl e | Inr b \<Rightarrow> Inr (a @ b)))"

text \<open>
  \<open>bytes(filename, 'utf-8')\<close>: a file name is kept as the string of its UTF-8 bytes,
  so the encoding maps each character to its byte.
\<close>

definition utf8 :: "string \<Rightarrow> bytes" where
  "utf8 s = map (\<lambda>c. of_nat (of_char c)) s"

section \<open>The environment: socket, file system, diagnostics\<close>

text \<open>
  One call of \<open>client_socket.recvfrom(516)\<close> either delivers a datagram with the address
  it came from, or raises \<open>socket.timeout\<close> once the socket's timeout has elapsed. The
  server's behaviour is the sequence of these events. \<open>recvfrom\<close> keeps at most
  \<open>bufsize\<close> bytes of a datagram.
\<close>

datatype recv_event = Timeout | Datagram bytes address

fun recvfrom :: "nat \<Rightarrow> recv_event \<Rightarrow> (bytes \<times> address) option" where
  "recvfrom bufsize Timeout = None"
| "recvfrom bufsize (Datagram d a) = Some (take bufsize d, a)"

text \<open>The lines written by \<open>print\<close> and the records written through \<open>logging\<close>.\<close>

datatype print_line =
    Print_not_exist string
  | Print_no_permission string
  | Print_starting string int string
  | Print_unsupported_mode

datatype log_record =
    Error_unexpected_opcode int
  | Error_out_of_order int int
  | Info_received_block int
  | Debug_written nat
  | Info_finished
  | Error_max_retries
  | Warning_retrying int int

text \<open>
  A regular file has a content and may or may not be readable by the process
  (\<open>os.access(filename, os.R_OK)\<close>). The file system maps a path to the regular file
  there, if any (\<open>os.path.isfile\<close>).

  The world outside the program is the file system, the datagrams passed to
  \<open>sendto\<close> in the order of the calls, the number of calls of \<open>recvfrom\<close>, the lines
  printed, the log, and the socket's timeout in seconds and whether it is closed.
  \<open>open\<close>, \<open>write\<close> and \<open>sendto\<close> are taken to succeed.
\<close>

record file_entry =
  content :: bytes
  readable :: bool

record world =
  fs :: "string \<rightharpoonup> file_entry"
  sent :: "(bytes \<times> address) list"
  recvs :: nat
  printed :: "print_line list"
  logged :: "log_record list"
  sock_timeout :: "int option"
  sock_closed :: bool

definition isfile :: "string \<Rightarrow> world \<Rightarrow> bool" where
  "isfile filename w = (fs w filename \<noteq> None)"

definition access_R_OK :: "string \<Rightarrow> world \<Rightarrow> bool" where
  "access_R_OK filename w = (case fs w filename of None \<Rightarrow> False | Some f \<Rightarrow> readable f)"

definition sendto :: "bytes \<Rightarrow> address \<Rightarrow> world \<Rightarrow> world" where
  "sendto packet addr w = w\<lparr>sent := sent w @ [(packet, addr)]\<rparr>"

definition print :: "print_line \<Rightarrow> world \<Rightarrow> world" where
  "print l w = w\<lparr>printed := printed w @ [l]\<rparr>"

definition logging :: "log_record \<Rightarrow> world \<Rightarrow> world" where
  "logging r w = w\<lparr>logged := logged w @ [r]\<rparr>"

text \<open>
  \<open>open(filename, 'wb')\<close> creates the file if there is none and empties it if there is
  one; \<open>file.write\<close> appends to it.
\<close>

definition open_wb :: "string \<Rightarrow> world \<Rightarrow> world" where
  "open_wb filename w =
     w\<lparr>fs := (fs w)(filename \<mapsto>
        (case fs w filename of
           None \<Rightarrow> \<lparr>content = [], readable = True\<rparr>
         | Some f \<Rightarrow> f\<lparr>content := []\<rparr>))\<rparr>"

definition file_write :: "string \<Rightarrow> bytes \<Rightarrow> world \<Rightarrow> world" where
  "file_write filename b w =
     w\<lparr>fs := (fs w)(filename \<mapsto>
        (case fs w filename of
           None \<Rightarrow> \<lparr>content = b, readable = True\<rparr>
         | Some f \<Rightarrow> f\<lparr>content := content f @ b\<rparr>))\<rparr>"

definition file_content :: "string \<Rightarrow> world \<Rightarrow> bytes option" where
  "file_content filename w = map_option content (fs w filename)"

section \<open>send_rrq\<close>

definition rrq_packet :: "string \<Rightarrow> bytes" where
  "rrq_packet filename = [0, 1] @ utf8 filename @ [0] @ utf8 ''octet'' @ [0]"

definition send_rrq :: "address \<Rightarrow> string \<Rightarrow> world \<Rightarrow> world" where
  "send_rrq server_address filename w =
     (if \<not> isfile filename w then print (Print_not_exist filename) w
      else if \<not> access_R_OK filename w then print (Print_no_permission filename) w
      else print (Print_starting (fst server_address) (snd server_address) filename)
             (sendto (rrq_packet filename) server_address w))"

section \<open>receive_data\<close>

text \<open>
  The local variables of \<open>receive_data\<close>. The loop leaves through one of four
  \<open>break\<close> statements, or through an exception that no handler catches; while the
  sequence of events has not said what the next \<open>recvfrom\<close> does, it is still waiting.
\<close>

record locals =
  block_num :: int
  retries :: int
  ack_packet :: "bytes option"

datatype break = UnexpectedOpcode | OutOfOrderBlock | Finished | MaxRetriesExceeded

datatype status = Awaiting | Exited break | Raised exn

definition max_retries :: int where
  "max_retries = 3"

definition on_timeout :: "address \<Rightarrow> locals \<Rightarrow> world \<Rightarrow> status \<times> locals \<times> world" where
  "on_timeout server_address l w =
     (let l1 = l\<lparr>retries := retries l + 1\<rparr> in
      if retries l1 > max_retries then (Exited MaxRetriesExceeded, l1, logging Error_max_retries w)
      else
        (let w1 = logging (Warning_retrying (retries l1) max_retries) w in
         case ack_packet l1 of
           None \<Rightarrow> (Awaiting, l1, w1)
         | Some p \<Rightarrow> if p \<noteq> [] then (Awaiting, l1, sendto p server_address w1)
                     else (Awaiting, l1, w1)))"

definition on_datagram ::
  "string \<Rightarrow> bytes \<Rightarrow> address \<Rightarrow> locals \<Rightarrow> world \<Rightarrow> status \<times> locals \<times> world" where
  "on_datagram filename data addr l w =
     (case unpack_HH (take 4 data) of
        Inl e \<Rightarrow> (Raised e, l, w)
      | Inr (opcode, block) \<Rightarrow>
          if opcode \<noteq> 3 then (Exited UnexpectedOpcode, l, logging (Error_unexpected_opcode opcode) w)
          else if block \<noteq> block_num l then
            (Exited OutOfOrderBlock, l, logging (Error_out_of_order block (block_num l)) w)
          else
            (let w1 = logging (Info_received_block block) w;
                 w2 = file_write filename (drop 4 data) w1;
                 w3 = logging (Debug_written (length (drop 4 data))) w2
             in case pack_HH 4 block of
                  Inl e \<Rightarrow> (Raised e, l, w3)
                | Inr ack \<Rightarrow>
                    (let w4 = sendto ack addr w3;
                         l1 = l\<lparr>ack_packet := Some ack, block_num := block_num l + 1, retries := 0\<rparr>
                     in if length (drop 4 data) < 512
                        then (Exited Finished, l1, logging Info_finished w4)
                        else (Awaiting, l1, w4))))"

text \<open>One pass through the body of \<open>while True\<close>.\<close>

definition iteration ::
  "address \<Rightarrow> string \<Rightarrow> recv_event \<Rightarrow> locals \<Rightarrow> world \<Rightarrow> status \<times> locals \<times> world" where
  "iteration server_address filename ev l w =
     (let w0 = w\<lparr>recvs := recvs w + 1\<rparr> in
      case recvfrom 516 ev of
        None \<Rightarrow> on_timeout server_address l w0
      | Some (data, addr) \<Rightarrow> on_datagram filename data addr l w0)"

fun receive_loop ::
  "address \<Rightarrow> string \<Rightarrow> recv_event list \<Rightarrow> locals \<Rightarrow> world \<Rightarrow> status \<times> locals \<times> world" where
  "receive_loop server_address filename [] l w = (Awaiting, l, w)"
| "receive_loop server_address filename (ev # evs) l w =
     (case iteration server_address filename ev l w of
        (Awaiting, l1, w1) \<Rightarrow> receive_loop server_address filename evs l1 w1
      | r \<Rightarrow> r)"

definition initial_locals :: locals where
  "initial_locals = \<lparr>block_num = 1, retries = 0, ack_packet = None\<rparr>"

definition receive_data ::
  "address \<Rightarrow> string \<Rightarrow> recv_event list \<Rightarrow> world \<Rightarrow> status \<times> locals \<times> world" where
  "receive_data server_address filename evs w =
     receive_loop server_address filename evs initial_locals (open_wb filename w)"

text \<open>
  \<open>receive_data\<close> has no \<open>return\<close> statement: when the loop is left through a
  \<open>break\<close> the call returns \<open>None\<close>; when an exception leaves it, or while it waits,
  it returns nothing.
\<close>

datatype py_value = PyNone | PyInt int | PyStr string

fun return_value :: "status \<Rightarrow> py_value option" where
  "return_value (Exited b) = Some PyNone"
| "return_value Awaiting = None"
| "return_value (Raised e) = None"

section \<open>main\<close>

record arguments =
  args_file :: string
  args_m :: string
  args_p :: int

text \<open>The defaults of \<open>parse_arguments\<close>.\<close>

definition default_arguments :: arguments where
  "default_arguments = \<lparr>args_file = ''data.txt'', args_m = ''rx'', args_p = 6969\<rparr>"

definition new_socket :: "(string \<rightharpoonup> file_entry) \<Rightarrow> world" where
  "new_socket files =
     \<lparr>fs = files, sent = [], recvs = 0, printed = [], logged = [],
      sock_timeout = None, sock_closed = False\<rparr>"

text \<open>
  \<open>main\<close> calls \<open>receive_data\<close> in mode \<open>rx\<close> only, so the status of the
  receive loop is optional. The \<open>finally\<close> clause closes the socket once the
  \<open>try\<close> block has been left, by return or by exception.
\<close>

definition main ::
  "arguments \<Rightarrow> (string \<rightharpoonup> file_entry) \<Rightarrow> recv_event list \<Rightarrow> status option \<times> world" where
  "main args files evs =
     (let server_address = (''127.0.0.1'', args_p args);
          w0 = (new_socket files)\<lparr>sock_timeout := Some 2\<rparr>
      in if args_m args = ''rx'' then
           (let w1 = send_rrq server_address (args_file args) w0;
                (s, l, w2) = receive_data server_address (args_file args) evs w1
            in (Some s, w2\<lparr>sock_closed := (s \<noteq> Awaiting)\<rparr>))
         else (None, (print Print_unsupported_mode w0)\<lparr>sock_closed := True\<rparr>))"

section \<open>Packets and server runs used in the statements\<close>

text \<open>
  The acknowledgment of block \<open>k\<close>, the value of \<open>struct.pack("!HH", 4, k)\<close> when
  \<open>k\<close> fits the 16-bit field, and a data segment as the server sends it: opcode 3,
  the block number in a 16-bit field (so reduced modulo 65536), then the payload.
\<close>

definition ack_of :: "int \<Rightarrow> bytes" where
  "ack_of k = [0, 4, word_of_int (k div 256), word_of_int (k mod 256)]"

definition data_packet :: "int \<Rightarrow> bytes \<Rightarrow> bytes" where
  "data_packet k payload =
     [0, 3, word_of_int ((k mod 65536) div 256), word_of_int (k mod 256)] @ payload"

text \<open>
  A well-behaved run from block \<open>k\<close>: data segments numbered \<open>k, k + 1, \<dots>\<close>, all
  but the last with a payload of exactly 512 bytes (a datagram of 516), the last with
  a shorter payload.
\<close>

fun well_behaved :: "int \<Rightarrow> (bytes \<times> address) list \<Rightarrow> bool" where
  "well_behaved k [] = False"
| "well_behaved k [(d, a)] = (unpack_HH (take 4 d) = Inr (3, k) \<and> length d < 516)"
| "well_behaved k ((d, a) # rest) =
     (unpack_HH (take 4 d) = Inr (3, k) \<and> length d = 516 \<and> well_behaved (k + 1) rest)"

text \<open>\<open>n\<close> full segments from one address, numbered from \<open>k\<close>, each carrying 512 zero bytes.\<close>

fun full_segments :: "address \<Rightarrow> int \<Rightarrow> nat \<Rightarrow> recv_event list" where
  "full_segments a k 0 = []"
| "full_segments a k (Suc n) =
     Datagram (data_packet k (replicate 512 0)) a # full_segments a (k + 1) n"

text \<open>The log record that each \<open>break\<close> of the loop writes just before it.\<close>

fun reports :: "break \<Rightarrow> log_record \<Rightarrow> bool" where
  "reports UnexpectedOpcode (Error_unexpected_opcode opcode) = True"
| "reports OutOfOrderBlock (Error_out_of_order block expected) = True"
| "reports Finished Info_finished = True"
| "reports MaxRetriesExceeded Error_max_retries = True"
| "reports _ _ = False"

section \<open>Facts about the wire format\<close>

lemma unpack_HH_length: "unpack_HH b = Inr xy \<Longrightarrow> length b = 4"
  by (cases b rule: unpack_HH.cases) auto

lemma unpack_HH_StructError: "length b \<noteq> 4 \<Longrightarrow> unpack_HH b = Inl StructError"
  by (cases b rule: unpack_HH.cases) auto

lemma byte_pair_range: "0 \<le> uint (a :: byte) * 256 + uint (b :: byte) \<and> uint a * 256 + uint b < 65536"
proof -
  have "uint a < 256" "uint b < 256" using uint_bounded [of a] uint_bounded [of b] by simp_all
  moreover have "0 \<le> uint a" "0 \<le> uint b" by simp_all
  ultimately show ?thesis by linarith
qed

lemma unpack_HH_range:
  "unpack_HH b = Inr (x, y) \<Longrightarrow> 0 \<le> x \<and> x < 65536 \<and> 0 \<le> y \<and> y < 65536"
  by (cases b rule: unpack_HH.cases) (auto simp: byte_pair_range)

lemma pack_H_range: "0 \<le> v \<Longrightarrow> v < 65536 \<Longrightarrow> pack_H v = Inr [word_of_int (v div 256), word_of_int (v mod 256)]"
  by (simp add: pack_H_def)

lemma pack_HH_ack:
  "0 \<le> k \<Longrightarrow> k < 65536 \<Longrightarrow>
   pack_HH 4 k = Inr [0, 4, word_of_int (k div 256), word_of_int (k mod 256)]"
  by (simp add: pack_HH_def pack_H_def)

lemma uint_byte_div: "0 \<le> k \<Longrightarrow> k < 65536 \<Longrightarrow> uint (word_of_int (k div 256) :: byte) = k div 256"
  by (simp add: uint_word_of_int take_bit_eq_mod)

lemma uint_byte_mod: "uint (word_of_int (k mod 256) :: byte) = k mod 256"
  by (simp add: uint_word_of_int take_bit_eq_mod)

lemma unpack_HH_ack:
  "0 \<le> k \<Longrightarrow> k < 65536 \<Longrightarrow>
   unpack_HH [0, 4, word_of_int (k div 256), word_of_int (k mod 256)] = Inr (4, k)"
  by (simp add: uint_byte_div uint_byte_mod)

section \<open>One iteration, case by case\<close>

lemma iteration_timeout:
  "iteration sa fn Timeout l w = on_timeout sa l (w\<lparr>recvs := recvs w + 1\<rparr>)"
  by (simp add: iteration_def)

lemma iteration_datagram:
  "iteration sa fn (Datagram d a) l w = on_datagram fn (take 516 d) a l (w\<lparr>recvs := recvs w + 1\<rparr>)"
  by (simp add: iteration_def)

lemma on_datagram_short:
  "length data < 4 \<Longrightarrow> on_datagram fn data a l w = (Raised StructError, l, w)"
  by (simp add: on_datagram_def unpack_HH_StructError)

lemma on_datagram_opcode:
  "unpack_HH (take 4 data) = Inr (opcode, block) \<Longrightarrow> opcode \<noteq> 3 \<Longrightarrow>
   on_datagram fn data a l w = (Exited UnexpectedOpcode, l, logging (Error_unexpected_opcode opcode) w)"
  by (simp add: on_datagram_def)

lemma on_datagram_block:
  "unpack_HH (take 4 data) = Inr (3, block) \<Longrightarrow> block \<noteq> block_num l \<Longrightarrow>
   on_datagram fn data a l w =
     (Exited OutOfOrderBlock, l, logging (Error_out_of_order block (block_num l)) w)"
  by (simp add: on_datagram_def)

lemma on_datagram_accept:
  assumes "unpack_HH (take 4 data) = Inr (3, block_num l)"
  shows "on_datagram fn data a l w =
     (if length (drop 4 data) < 512 then Exited Finished else Awaiting,
      l\<lparr>ack_packet := Some (ack_of (block_num l)),
        block_num := block_num l + 1, retries := 0\<rparr>,
      (if length (drop 4 data) < 512 then logging Info_finished else id)
        (sendto (ack_of (block_num l)) a
          (logging (Debug_written (length (drop 4 data)))
            (file_write fn (drop 4 data) (logging (Info_received_block (block_num l)) w)))))"
proof -
  from assms have "0 \<le> block_num l" "block_num l < 65536"
    using unpack_HH_range by blast+
  then have "pack_HH 4 (block_num l) =
      Inr (ack_of (block_num l))"
    by (simp add: pack_HH_ack ack_of_def)
  with assms show ?thesis
    by (simp add: on_datagram_def Let_def)
qed

lemma receive_loop_append:
  "receive_loop sa fn (xs @ ys) l w =
     (case receive_loop sa fn xs l w of
        (Awaiting, l1, w1) \<Rightarrow> receive_loop sa fn ys l1 w1
      | r \<Rightarrow> r)"
proof (induction xs arbitrary: l w)
  case Nil
  then show ?case by simp
next
  case (Cons ev xs)
  obtain s l1 w1 where it: "iteration sa fn ev l w = (s, l1, w1)"
    by (cases "iteration sa fn ev l w") auto
  show ?case
  proof (cases s)
    case Awaiting
    with it Cons show ?thesis by simp
  next
    case (Exited b)
    with it show ?thesis by simp
  next
    case (Raised e)
    with it show ?thesis by simp
  qed
qed

lemma receive_loop_Awaiting_append:
  "receive_loop sa fn xs l w = (Awaiting, l1, w1) \<Longrightarrow>
   receive_loop sa fn (xs @ ys) l w = receive_loop sa fn ys l1 w1"
  by (simp add: receive_loop_append)

lemma receive_loop_step:
  "receive_loop sa fn xs l w = (Awaiting, l1, w1) \<Longrightarrow> iteration sa fn ev l1 w1 = (s, l2, w2) \<Longrightarrow> s \<noteq> Awaiting \<Longrightarrow>
   receive_loop sa fn (xs @ ev # rest) l w = (s, l2, w2)"
  by (cases s) (simp_all add: receive_loop_append)

lemma unpack_HH_four: "length b = 4 \<Longrightarrow> \<exists>x y. unpack_HH b = Inr (x, y)"
  by (cases b rule: unpack_HH.cases) auto

lemma on_datagram_not_Raised:
  assumes "4 \<le> length data"
  shows "fst (on_datagram fn data a l w) \<noteq> Raised e"
proof -
  from assms have "length (take 4 data) = 4" by simp
  then obtain opcode block where u: "unpack_HH (take 4 data) = Inr (opcode, block)"
    using unpack_HH_four by blast
  show ?thesis
  proof (cases "opcode = 3")
    case False
    with u show ?thesis by (simp add: on_datagram_opcode)
  next
    case True
    show ?thesis
    proof (cases "block = block_num l")
      case False
      with u True show ?thesis by (simp add: on_datagram_block)
    next
      case b: True
      with u True have "unpack_HH (take 4 data) = Inr (3, block_num l)" by simp
      then show ?thesis by (simp add: on_datagram_accept)
    qed
  qed
qed

section \<open>Datagrams too short to hold a header\<close>

text \<open>
  Claim C9. Whenever the loop is waiting and the next datagram has fewer than four
  bytes, \<open>struct.unpack\<close> raises \<open>struct.error\<close>; \<open>receive_data\<close> has a handler for
  \<open>socket.timeout\<close> only, so the exception leaves it: the loop takes none of its
  \<open>break\<close> exits, nothing is returned, and neither the local variables nor the file
  nor the datagrams sent change. A datagram of four bytes or more never makes an
  iteration raise.
\<close>

theorem short_datagram_raises:
  assumes "receive_data sa fn evs w = (Awaiting, l, w1)"
  shows "(length d < 4 \<longrightarrow>
            receive_data sa fn (evs @ Datagram d a # rest) w =
              (Raised StructError, l, w1\<lparr>recvs := recvs w1 + 1\<rparr>) \<and>
            return_value (fst (receive_data sa fn (evs @ Datagram d a # rest) w)) = None) \<and>
         (4 \<le> length d \<longrightarrow> (\<forall>e. fst (receive_data sa fn (evs @ [Datagram d a]) w) \<noteq> Raised e))"
proof (intro conjI impI allI)
  assume short: "length d < 4"
  then have "iteration sa fn (Datagram d a) l w1 = (Raised StructError, l, w1\<lparr>recvs := recvs w1 + 1\<rparr>)"
    by (simp add: iteration_datagram on_datagram_short)
  with assms show r: "receive_data sa fn (evs @ Datagram d a # rest) w =
      (Raised StructError, l, w1\<lparr>recvs := recvs w1 + 1\<rparr>)"
    unfolding receive_data_def by (simp add: receive_loop_Awaiting_append)
  show "return_value (fst (receive_data sa fn (evs @ Datagram d a # rest) w)) = None"
    by (simp add: r)
next
  fix e
  assume long: "4 \<le> length d"
  then have "4 \<le> length (take 516 d)" by simp
  then have n: "fst (on_datagram fn (take 516 d) a l (w1\<lparr>recvs := recvs w1 + 1\<rparr>)) \<noteq> Raised e"
    by (rule on_datagram_not_Raised)
  obtain s l2 w2 where it: "iteration sa fn (Datagram d a) l w1 = (s, l2, w2)"
    by (cases "iteration sa fn (Datagram d a) l w1") auto
  with n have "s \<noteq> Raised e" by (simp add: iteration_datagram)
  moreover from assms it have "fst (receive_data sa fn (evs @ [Datagram d a]) w) = s"
    unfolding receive_data_def by (cases s) (simp_all add: receive_loop_Awaiting_append)
  ultimately show "fst (receive_data sa fn (evs @ [Datagram d a]) w) \<noteq> Raised e" by simp
qed

theorem short_datagram_raises_witness:
  "receive_data (''127.0.0.1'', 6969) ''data.txt'' [] (new_socket Map.empty) =
     (Awaiting, initial_locals, open_wb ''data.txt'' (new_socket Map.empty)) \<and>
   length [0, 3, 0 :: byte] < 4 \<and>
   receive_data (''127.0.0.1'', 6969) ''data.txt'' [Datagram [0, 3, 0] (''127.0.0.1'', 50000)]
       (new_socket Map.empty) =
     (Raised StructError, initial_locals,
      (open_wb ''data.txt'' (new_socket Map.empty))\<lparr>recvs := 1\<rparr>) \<and>
   4 \<le> length [0, 3, 0, 1 :: byte] \<and>
   fst (receive_data (''127.0.0.1'', 6969) ''data.txt'' [Datagram [0, 3, 0, 1] (''127.0.0.1'', 50000)]
       (new_socket Map.empty)) \<noteq> Raised StructError"
proof -
  have h: "receive_data (''127.0.0.1'', 6969) ''data.txt'' [] (new_socket Map.empty) =
     (Awaiting, initial_locals, open_wb ''data.txt'' (new_socket Map.empty))"
    by (simp add: receive_data_def)
  have r: "recvs (open_wb ''data.txt'' (new_socket Map.empty)) = 0"
    by (simp add: open_wb_def new_socket_def)
  from short_datagram_raises [OF h, of "[0, 3, 0]" "(''127.0.0.1'', 50000)" "[]"]
       short_datagram_raises [OF h, of "[0, 3, 0, 1]" "(''127.0.0.1'', 50000)" "[]"]
  show ?thesis using h by (simp add: r)
qed

section \<open>Datagrams with another opcode\<close>

text \<open>
  Claim C6. Whenever the loop is waiting and the next datagram has a header whose
  opcode is not 3, the loop is left through the \<open>break\<close> that reports the unexpected
  opcode: the local variables are as before, the only change to the world is the error
  record in the log, so no byte of the datagram reaches the output file and nothing is
  sent.
\<close>

theorem unexpected_opcode_terminates:
  assumes "receive_data sa fn evs w = (Awaiting, l, w1)"
    and "unpack_HH (take 4 d) = Inr (opcode, block)"
    and "opcode \<noteq> 3"
  shows "receive_data sa fn (evs @ Datagram d a # rest) w =
           (Exited UnexpectedOpcode, l,
            logging (Error_unexpected_opcode opcode) (w1\<lparr>recvs := recvs w1 + 1\<rparr>)) \<and>
         file_content fn (snd (snd (receive_data sa fn (evs @ Datagram d a # rest) w))) =
           file_content fn w1 \<and>
         sent (snd (snd (receive_data sa fn (evs @ Datagram d a # rest) w))) = sent w1"
proof -
  from assms(2) have "unpack_HH (take 4 (take 516 d)) = Inr (opcode, block)" by simp
  then have "iteration sa fn (Datagram d a) l w1 =
      (Exited UnexpectedOpcode, l,
       logging (Error_unexpected_opcode opcode) (w1\<lparr>recvs := recvs w1 + 1\<rparr>))"
    unfolding iteration_datagram using assms(3) by (rule on_datagram_opcode)
  with assms(1) have r: "receive_data sa fn (evs @ Datagram d a # rest) w =
      (Exited UnexpectedOpcode, l,
       logging (Error_unexpected_opcode opcode) (w1\<lparr>recvs := recvs w1 + 1\<rparr>))"
    unfolding receive_data_def by (simp add: receive_loop_Awaiting_append)
  show ?thesis
    by (simp add: r logging_def file_content_def)
qed

theorem unexpected_opcode_terminates_witness:
  "receive_data (''127.0.0.1'', 6969) ''data.txt'' [] (new_socket Map.empty) =
     (Awaiting, initial_locals, open_wb ''data.txt'' (new_socket Map.empty)) \<and>
   unpack_HH (take 4 [0, 5, 0, 1, 66, 97, 100]) = Inr (5, 1) \<and> (5 :: int) \<noteq> 3 \<and>
   fst (receive_data (''127.0.0.1'', 6969) ''data.txt''
          [Datagram [0, 5, 0, 1, 66, 97, 100] (''127.0.0.1'', 50000)] (new_socket Map.empty)) =
     Exited UnexpectedOpcode \<and>
   file_content ''data.txt'' (snd (snd (receive_data (''127.0.0.1'', 6969) ''data.txt''
          [Datagram [0, 5, 0, 1, 66, 97, 100] (''127.0.0.1'', 50000)] (new_socket Map.empty)))) =
     Some []"
proof -
  have h: "receive_data (''127.0.0.1'', 6969) ''data.txt'' [] (new_socket Map.empty) =
     (Awaiting, initial_locals, open_wb ''data.txt'' (new_socket Map.empty))"
    by (simp add: receive_data_def)
  have u: "unpack_HH (take 4 [0, 5, 0, 1, 66, 97, 100]) = Inr (5, 1)" by simp
  have c: "file_content ''data.txt'' (open_wb ''data.txt'' (new_socket Map.empty)) = Some []"
    by (simp add: file_content_def open_wb_def new_socket_def)
  note t = unexpected_opcode_terminates [OF h u, of "(''127.0.0.1'', 50000)" "[]"]
  from t [THEN conjunct1] have "fst (receive_data (''127.0.0.1'', 6969) ''data.txt''
          [Datagram [0, 5, 0, 1, 66, 97, 100] (''127.0.0.1'', 50000)] (new_socket Map.empty)) =
     Exited UnexpectedOpcode" by simp
  moreover from t [THEN conjunct2, THEN conjunct1] c have "file_content ''data.txt'' (snd (snd (receive_data (''127.0.0.1'', 6969)
          ''data.txt'' [Datagram [0, 5, 0, 1, 66, 97, 100] (''127.0.0.1'', 50000)]
          (new_socket Map.empty)))) = Some []" by simp
  ultimately show ?thesis using h u by simp
qed

section \<open>Data segments out of order\<close>

text \<open>
  Claim C2. Whenever the loop is waiting and the next datagram is a data segment
  (opcode 3) whose block number is not \<open>block_num\<close>, be it a later block or a
  duplicate of an earlier one, the loop is left through the \<open>break\<close> that reports the
  out-of-order block: \<open>block_num\<close>, \<open>retries\<close> and \<open>ack_packet\<close> are as before, the
  only change to the world is the error record in the log, so no byte of the payload
  reaches the output file and nothing is sent.
\<close>

theorem out_of_order_terminates:
  assumes "receive_data sa fn evs w = (Awaiting, l, w1)"
    and "unpack_HH (take 4 d) = Inr (3, block)"
    and "block \<noteq> block_num l"
  shows "receive_data sa fn (evs @ Datagram d a # rest) w =
           (Exited OutOfOrderBlock, l,
            logging (Error_out_of_order block (block_num l)) (w1\<lparr>recvs := recvs w1 + 1\<rparr>)) \<and>
         file_content fn (snd (snd (receive_data sa fn (evs @ Datagram d a # rest) w))) =
           file_content fn w1 \<and>
         sent (snd (snd (receive_data sa fn (evs @ Datagram d a # rest) w))) = sent w1"
proof -
  from assms(2) have "unpack_HH (take 4 (take 516 d)) = Inr (3, block)" by simp
  then have "on_datagram fn (take 516 d) a l (w1\<lparr>recvs := recvs w1 + 1\<rparr>) =
      (Exited OutOfOrderBlock, l,
       logging (Error_out_of_order block (block_num l)) (w1\<lparr>recvs := recvs w1 + 1\<rparr>))"
    using assms(3) by (rule on_datagram_block)
  with assms(1) have r: "receive_data sa fn (evs @ Datagram d a # rest) w =
      (Exited OutOfOrderBlock, l,
       logging (Error_out_of_order block (block_num l)) (w1\<lparr>recvs := recvs w1 + 1\<rparr>))"
    unfolding receive_data_def by (simp add: receive_loop_Awaiting_append iteration_datagram)
  show ?thesis
    by (simp add: r logging_def file_content_def)
qed


theorem out_of_order_terminates_witness:
  "receive_data (''127.0.0.1'', 6969) ''data.txt'' [] (new_socket Map.empty) =
     (Awaiting, initial_locals, open_wb ''data.txt'' (new_socket Map.empty)) \<and>
   unpack_HH (take 4 [0, 3, 0, 2, 66, 97, 100]) = Inr (3, 2) \<and> 2 \<noteq> block_num initial_locals \<and>
   receive_data (''127.0.0.1'', 6969) ''data.txt''
          [Datagram [0, 3, 0, 2, 66, 97, 100] (''127.0.0.1'', 50000)] (new_socket Map.empty) =
     (Exited OutOfOrderBlock, initial_locals,
      logging (Error_out_of_order 2 1) ((open_wb ''data.txt'' (new_socket Map.empty))\<lparr>recvs := 1\<rparr>)) \<and>
   file_content ''data.txt'' (snd (snd (receive_data (''127.0.0.1'', 6969) ''data.txt''
          [Datagram [0, 3, 0, 2, 66, 97, 100] (''127.0.0.1'', 50000)] (new_socket Map.empty)))) =
     Some []"
proof -
  have h: "receive_data (''127.0.0.1'', 6969) ''data.txt'' [] (new_socket Map.empty) =
     (Awaiting, initial_locals, open_wb ''data.txt'' (new_socket Map.empty))"
    by (simp add: receive_data_def)
  have u: "unpack_HH (take 4 [0, 3, 0, 2, 66, 97, 100]) = Inr (3, 2)" by simp
  have n: "2 \<noteq> block_num initial_locals" by (simp add: initial_locals_def)
  have c: "file_content ''data.txt'' (open_wb ''data.txt'' (new_socket Map.empty)) = Some []"
    by (simp add: file_content_def open_wb_def new_socket_def)
  have r: "recvs (open_wb ''data.txt'' (new_socket Map.empty)) = 0"
    by (simp add: open_wb_def new_socket_def)
  have b: "block_num initial_locals = 1" by (simp add: initial_locals_def)
  note t = out_of_order_terminates [OF h u n, of "(''127.0.0.1'', 50000)" "[]"]
  from t [THEN conjunct1] r b have "receive_data (''127.0.0.1'', 6969) ''data.txt''
          [Datagram [0, 3, 0, 2, 66, 97, 100] (''127.0.0.1'', 50000)] (new_socket Map.empty) =
     (Exited OutOfOrderBlock, initial_locals,
      logging (Error_out_of_order 2 1) ((open_wb ''data.txt'' (new_socket Map.empty))\<lparr>recvs := 1\<rparr>))"
    by simp
  moreover from t [THEN conjunct2, THEN conjunct1] c have "file_content ''data.txt'' (snd (snd (receive_data (''127.0.0.1'', 6969)
          ''data.txt'' [Datagram [0, 3, 0, 2, 66, 97, 100] (''127.0.0.1'', 50000)]
          (new_socket Map.empty)))) = Some []" by simp
  ultimately show ?thesis using h u n by simp
qed

section \<open>Facts about the request and about timeouts\<close>

lemmas world_ops = logging_def sendto_def print_def open_wb_def file_write_def new_socket_def

lemma send_rrq_ok:
  "fs w filename = Some f \<Longrightarrow> readable f \<Longrightarrow>
   send_rrq sa filename w =
     print (Print_starting (fst sa) (snd sa) filename) (sendto (rrq_packet filename) sa w)"
  by (simp add: send_rrq_def isfile_def access_R_OK_def)

lemma timeouts_from_start:
  "receive_loop sa fn [] initial_locals w = (Awaiting, initial_locals, w)"
  "receive_loop sa fn [Timeout] initial_locals w =
     (Awaiting, initial_locals\<lparr>retries := 1\<rparr>,
      logging (Warning_retrying 1 3) (w\<lparr>recvs := recvs w + 1\<rparr>))"
  "receive_loop sa fn [Timeout, Timeout] initial_locals w =
     (Awaiting, initial_locals\<lparr>retries := 2\<rparr>,
      logging (Warning_retrying 2 3) (logging (Warning_retrying 1 3) (w\<lparr>recvs := recvs w + 2\<rparr>)))"
  "receive_loop sa fn [Timeout, Timeout, Timeout] initial_locals w =
     (Awaiting, initial_locals\<lparr>retries := 3\<rparr>,
      logging (Warning_retrying 3 3) (logging (Warning_retrying 2 3)
        (logging (Warning_retrying 1 3) (w\<lparr>recvs := recvs w + 3\<rparr>))))"
  "receive_loop sa fn (Timeout # Timeout # Timeout # Timeout # rest) initial_locals w =
     (Exited MaxRetriesExceeded, initial_locals\<lparr>retries := 4\<rparr>,
      logging Error_max_retries (logging (Warning_retrying 3 3) (logging (Warning_retrying 2 3)
        (logging (Warning_retrying 1 3) (w\<lparr>recvs := recvs w + 4\<rparr>)))))"
  by (simp_all add: iteration_timeout on_timeout_def max_retries_def initial_locals_def logging_def)

lemma on_timeout_retries:
  "on_timeout sa l w = (s, l', w') \<Longrightarrow>
   retries l' = retries l + 1 \<and> block_num l' = block_num l \<and> ack_packet l' = ack_packet l \<and>
   (s = (if retries l + 1 > 3 then Exited MaxRetriesExceeded else Awaiting))"
  by (auto simp: on_timeout_def max_retries_def Let_def split: if_splits option.splits)

section \<open>A server that never responds\<close>

text \<open>
  Claim C3. \<open>main\<close> is run in mode \<open>rx\<close> on a file that exists and is readable, and
  the server stays silent, so every \<open>recvfrom\<close> ends in \<open>socket.timeout\<close>, which is one
  expiry of the timeout of 2 seconds that \<open>main\<close> has set on the socket. After up to
  three timeouts the loop is still waiting; the fourth makes it leave through the
  \<open>break\<close> that reports that the maximum of retries is reached. By then the log holds
  the three retry warnings, numbered 1 to 3, and the error; the only datagram sent is
  the read request, once, and no probe at all, since there is no acknowledgment to
  repeat. In any iteration, a timeout adds one to \<open>retries\<close>, and the loop is left
  exactly when the new value exceeds 3.
\<close>

theorem silent_server_max_retries:
  assumes "args_m args = ''rx''" and "files (args_file args) = Some f" and "readable f"
  shows "(n \<le> 3 \<longrightarrow> fst (main args files (replicate n Timeout)) = Some Awaiting) \<and>
         (\<exists>w. main args files (Timeout # Timeout # Timeout # Timeout # rest) =
                (Some (Exited MaxRetriesExceeded), w) \<and>
              sock_timeout w = Some 2 \<and> recvs w = 4 \<and>
              sent w = [(rrq_packet (args_file args), (''127.0.0.1'', args_p args))] \<and>
              logged w = [Warning_retrying 1 3, Warning_retrying 2 3, Warning_retrying 3 3,
                          Error_max_retries]) \<and>
         (iteration sa fn Timeout l w1 = (s, l', w') \<longrightarrow>
            retries l' = retries l + 1 \<and>
            s = (if retries l' > 3 then Exited MaxRetriesExceeded else Awaiting))"
proof (intro conjI impI)
  let ?sa = "(''127.0.0.1'', args_p args)"
  let ?w0 = "(new_socket files)\<lparr>sock_timeout := Some 2\<rparr>"
  from assms(2,3) have rrq: "send_rrq ?sa (args_file args) ?w0 =
      print (Print_starting ''127.0.0.1'' (args_p args) (args_file args))
        (sendto (rrq_packet (args_file args)) ?sa ?w0)"
    using send_rrq_ok [of ?w0 "args_file args" f ?sa] by (simp add: new_socket_def)
  {
    assume "n \<le> 3"
    then consider "n = 0" | "n = 1" | "n = 2" | "n = 3" by linarith
    then show "fst (main args files (replicate n Timeout)) = Some Awaiting"
    proof cases
      case 1
      with assms(1) show ?thesis by (simp add: main_def receive_data_def Let_def)
    next
      case 2
      then have "replicate n Timeout = [Timeout]" by simp
      with assms(1) show ?thesis
        by (simp add: main_def receive_data_def Let_def timeouts_from_start
            del: receive_loop.simps)
    next
      case 3
      then have "replicate n Timeout = [Timeout, Timeout]" by (simp add: numeral_2_eq_2)
      with assms(1) show ?thesis
        by (simp add: main_def receive_data_def Let_def timeouts_from_start
            del: receive_loop.simps)
    next
      case 4
      then have "replicate n Timeout = [Timeout, Timeout, Timeout]" by (simp add: numeral_3_eq_3)
      with assms(1) show ?thesis
        by (simp add: main_def receive_data_def Let_def timeouts_from_start
            del: receive_loop.simps)
    qed
  }
  show "\<exists>w. main args files (Timeout # Timeout # Timeout # Timeout # rest) =
                (Some (Exited MaxRetriesExceeded), w) \<and>
              sock_timeout w = Some 2 \<and> recvs w = 4 \<and>
              sent w = [(rrq_packet (args_file args), (''127.0.0.1'', args_p args))] \<and>
              logged w = [Warning_retrying 1 3, Warning_retrying 2 3, Warning_retrying 3 3,
                          Error_max_retries]"
    using assms(1)
    by (simp add: main_def receive_data_def Let_def timeouts_from_start rrq
        del: receive_loop.simps) (simp add: world_ops)
  {
    assume "iteration sa fn Timeout l w1 = (s, l', w')"
    then have "on_timeout sa l (w1\<lparr>recvs := recvs w1 + 1\<rparr>) = (s, l', w')"
      by (simp add: iteration_timeout)
    from on_timeout_retries [OF this]
    show "retries l' = retries l + 1"
      and "s = (if retries l' > 3 then Exited MaxRetriesExceeded else Awaiting)"
      by simp_all
  }
qed

theorem silent_server_max_retries_witness:
  "args_m default_arguments = ''rx'' \<and>
   [''data.txt'' \<mapsto> \<lparr>content = [72, 105], readable = True\<rparr>] (args_file default_arguments) =
     Some \<lparr>content = [72, 105], readable = True\<rparr> \<and>
   readable \<lparr>content = [72, 105], readable = True\<rparr> \<and>
   (3 :: nat) \<le> 3 \<and>
   fst (main default_arguments [''data.txt'' \<mapsto> \<lparr>content = [72, 105], readable = True\<rparr>]
          (replicate 3 Timeout)) = Some Awaiting \<and>
   fst (main default_arguments [''data.txt'' \<mapsto> \<lparr>content = [72, 105], readable = True\<rparr>]
          [Timeout, Timeout, Timeout, Timeout]) = Some (Exited MaxRetriesExceeded) \<and>
   sent (snd (main default_arguments [''data.txt'' \<mapsto> \<lparr>content = [72, 105], readable = True\<rparr>]
          [Timeout, Timeout, Timeout, Timeout])) =
     [(rrq_packet ''data.txt'', (''127.0.0.1'', 6969))] \<and>
   iteration (''127.0.0.1'', 6969) ''data.txt'' Timeout (initial_locals\<lparr>retries := 3\<rparr>)
       (new_socket Map.empty) =
     (Exited MaxRetriesExceeded, initial_locals\<lparr>retries := 4\<rparr>,
      logging Error_max_retries ((new_socket Map.empty)\<lparr>recvs := 1\<rparr>)) \<and>
   retries (initial_locals\<lparr>retries := 4\<rparr>) = retries (initial_locals\<lparr>retries := 3\<rparr>) + 1"
proof -
  let ?f = "\<lparr>content = [72, 105], readable = True\<rparr>"
  let ?files = "[''data.txt'' \<mapsto> ?f]"
  have m: "args_m default_arguments = ''rx''" by (simp add: default_arguments_def)
  have e: "?files (args_file default_arguments) = Some ?f" by (simp add: default_arguments_def)
  have r: "readable ?f" by simp
  have it: "iteration (''127.0.0.1'', 6969) ''data.txt'' Timeout (initial_locals\<lparr>retries := 3\<rparr>)
       (new_socket Map.empty) =
     (Exited MaxRetriesExceeded, initial_locals\<lparr>retries := 4\<rparr>,
      logging Error_max_retries ((new_socket Map.empty)\<lparr>recvs := 1\<rparr>))"
    by (simp add: iteration_timeout on_timeout_def max_retries_def initial_locals_def new_socket_def)
  note t = silent_server_max_retries [where args = default_arguments and files = ?files
      and f = ?f and n = 3 and rest = "[]" and sa = "(''127.0.0.1'', 6969)" and fn = "''data.txt''"
      and l = "initial_locals\<lparr>retries := 3\<rparr>" and ?w1.0 = "new_socket Map.empty"
      and s = "Exited MaxRetriesExceeded" and l' = "initial_locals\<lparr>retries := 4\<rparr>"
      and w' = "logging Error_max_retries ((new_socket Map.empty)\<lparr>recvs := 1\<rparr>)", OF m e r]
  from t [THEN conjunct1] have a: "fst (main default_arguments ?files (replicate 3 Timeout)) = Some Awaiting"
    by simp
  from t [THEN conjunct2, THEN conjunct1] obtain w where
    w: "main default_arguments ?files [Timeout, Timeout, Timeout, Timeout] =
          (Some (Exited MaxRetriesExceeded), w)"
       "sent w = [(rrq_packet (args_file default_arguments), (''127.0.0.1'', args_p default_arguments))]"
    by blast
  from w have b: "fst (main default_arguments ?files [Timeout, Timeout, Timeout, Timeout]) =
      Some (Exited MaxRetriesExceeded)"
    and c: "sent (snd (main default_arguments ?files [Timeout, Timeout, Timeout, Timeout])) =
      [(rrq_packet ''data.txt'', (''127.0.0.1'', 6969))]"
    by (simp_all add: default_arguments_def)
  from t [THEN conjunct2, THEN conjunct2] it
  have d: "retries (initial_locals\<lparr>retries := 4\<rparr>) = retries (initial_locals\<lparr>retries := 3\<rparr>) + 1"
    by blast
  from m e r a b c it d show ?thesis by simp
qed

section \<open>Accepted segments\<close>

lemma iteration_accept:
  assumes "unpack_HH (take 4 d) = Inr (3, block_num l)" and "length d \<le> 516"
    and "fs w fn = Some f"
  shows "\<exists>w'. iteration sa fn (Datagram d a) l w =
           (if length d < 516 then Exited Finished else Awaiting,
            l\<lparr>ack_packet := Some (ack_of (block_num l)), block_num := block_num l + 1,
              retries := 0\<rparr>, w') \<and>
         fs w' fn = Some (f\<lparr>content := content f @ drop 4 d\<rparr>) \<and>
         sent w' = sent w @ [(ack_of (block_num l), a)] \<and>
         recvs w' = recvs w + 1"
proof -
  from assms(2) have t: "take 516 d = d" by simp
  from assms(1) have "length (take 4 d) = 4" by (rule unpack_HH_length)
  then have "4 \<le> length d" by simp
  then have len: "length d - 4 < 512 \<longleftrightarrow> length d < 516" by linarith
  show ?thesis
    using assms(1,3) len
    by (simp add: iteration_datagram t on_datagram_accept world_ops)
qed

lemma upto_from: "[k..k + int (Suc n) - 1] = k # [k + 1..k + 1 + int n - 1]"
  by (simp add: upto_rec1)

lemma well_behaved_loop:
  assumes "well_behaved k run" and "block_num l = k" and "fs w fn = Some f"
  shows "\<exists>l' w'. receive_loop sa fn (map (\<lambda>(d, a). Datagram d a) run @ rest) l w =
             (Exited Finished, l', w') \<and>
           block_num l' = k + int (length run) \<and>
           fs w' fn = Some (f\<lparr>content := content f @ concat (map (\<lambda>(d, a). drop 4 d) run)\<rparr>) \<and>
           sent w' = sent w @ zip (map ack_of [k..k + int (length run) - 1]) (map snd run) \<and>
           recvs w' = recvs w + length run"
  using assms
proof (induction k run arbitrary: l w f rule: well_behaved.induct)
  case (1 k)
  then show ?case by simp
next
  case (2 k d a)
  then have u: "unpack_HH (take 4 d) = Inr (3, block_num l)" and len: "length d < 516"
    by simp_all
  from iteration_accept [OF u _ "2.prems"(3), of sa a] len "2.prems"(2)
  show ?case by auto
next
  case (3 k d a v va)
  then have u: "unpack_HH (take 4 d) = Inr (3, block_num l)" and len: "length d = 516"
    and wb: "well_behaved (k + 1) (v # va)"
    by simp_all
  from iteration_accept [OF u _ "3.prems"(3), of sa a] len
  obtain w1 where it: "iteration sa fn (Datagram d a) l w =
      (Awaiting, l\<lparr>ack_packet := Some (ack_of (block_num l)), block_num := block_num l + 1,
              retries := 0\<rparr>, w1)"
    and f1: "fs w1 fn = Some (f\<lparr>content := content f @ drop 4 d\<rparr>)"
    and s1: "sent w1 = sent w @ [(ack_of (block_num l), a)]"
    and r1: "recvs w1 = recvs w + 1"
    by auto
  let ?l1 = "l\<lparr>ack_packet := Some (ack_of (block_num l)), block_num := block_num l + 1,
              retries := 0\<rparr>"
  from "3.prems"(2) have b1: "block_num ?l1 = k + 1" by simp
  from "3.IH" [OF wb b1 f1]
  obtain l' w' where loop: "receive_loop sa fn (map (\<lambda>(d, a). Datagram d a) (v # va) @ rest) ?l1 w1 =
             (Exited Finished, l', w')"
    and bl: "block_num l' = k + 1 + int (length (v # va))"
    and fl: "fs w' fn = Some (f\<lparr>content := content f @ drop 4 d\<rparr>
          \<lparr>content := content (f\<lparr>content := content f @ drop 4 d\<rparr>) @
              concat (map (\<lambda>(d, a). drop 4 d) (v # va))\<rparr>)"
    and sl: "sent w' = sent w1 @ zip (map ack_of [k + 1..k + 1 + int (length (v # va)) - 1])
          (map snd (v # va))"
    and rl: "recvs w' = recvs w1 + length (v # va)"
    by blast
  have "receive_loop sa fn (map (\<lambda>(d, a). Datagram d a) ((d, a) # v # va) @ rest) l w =
      (Exited Finished, l', w')"
    using it loop by simp
  moreover have "block_num l' = k + int (length ((d, a) # v # va))"
    using bl by simp
  moreover have "fs w' fn = Some (f\<lparr>content := content f @
      concat (map (\<lambda>(d, a). drop 4 d) ((d, a) # v # va))\<rparr>)"
    using fl by simp
  moreover have "sent w' = sent w @ zip (map ack_of [k..k + int (length ((d, a) # v # va)) - 1])
      (map snd ((d, a) # v # va))"
    using sl s1 "3.prems"(2) upto_from [of k "length (v # va)"] by simp
  moreover have "recvs w' = recvs w + length ((d, a) # v # va)"
    using rl r1 by simp
  ultimately show ?case by blast
qed

lemma well_behaved_range:
  "well_behaved k run \<Longrightarrow> 0 \<le> k \<and> k + int (length run) \<le> 65536"
proof (induction k run rule: well_behaved.induct)
  case (1 k)
  then show ?case by simp
next
  case (2 k d a)
  then have "unpack_HH (take 4 d) = Inr (3, k)" by simp
  from unpack_HH_range [OF this] show ?case by simp
next
  case (3 k d a v va)
  then have "unpack_HH (take 4 d) = Inr (3, k)" and "well_behaved (k + 1) (v # va)" by simp_all
  from unpack_HH_range [OF this(1)] "3.IH" [OF this(2)] show ?case by simp
qed

lemma unpack_HH_ack_of: "0 \<le> k \<Longrightarrow> k < 65536 \<Longrightarrow> unpack_HH (ack_of k) = Inr (4, k)"
  unfolding ack_of_def by (rule unpack_HH_ack)

section \<open>A complete transfer\<close>

text \<open>
  Claim C1. The server sends \<open>N\<close> data segments with a payload of 512 bytes and then
  one with a shorter payload, numbered from 1, and nothing times out. Then
  \<open>receive_data\<close> leaves the loop through the \<open>break\<close> of a finished transfer after
  the last of them. The output file holds the payloads of the segments one after the
  other and nothing else. The datagrams sent are the acknowledgments (opcode 4) of the
  blocks 1, 2, ... up to \<open>N + 1\<close>, in this order, each to the address its segment came
  from.
\<close>

theorem well_behaved_transfer:
  assumes "well_behaved 1 run"
  shows "\<exists>l w'. receive_data sa fn (map (\<lambda>(d, a). Datagram d a) run @ rest) w =
             (Exited Finished, l, w') \<and>
           file_content fn w' = Some (concat (map (\<lambda>(d, a). drop 4 d) run)) \<and>
           sent w' = sent w @ zip (map ack_of [1..int (length run)]) (map snd run) \<and>
           map unpack_HH (map ack_of [1..int (length run)]) =
             map (\<lambda>k. Inr (4, k)) [1..int (length run)] \<and>
           block_num l = int (length run) + 1 \<and>
           recvs w' = recvs w + length run"
proof -
  obtain f where f: "fs (open_wb fn w) fn = Some f" and c: "content f = []"
    by (cases "fs w fn") (simp_all add: open_wb_def)
  have b: "block_num initial_locals = 1" by (simp add: initial_locals_def)
  from well_behaved_loop [OF assms b f, of sa rest]
  obtain l w' where loop: "receive_loop sa fn (map (\<lambda>(d, a). Datagram d a) run @ rest)
        initial_locals (open_wb fn w) = (Exited Finished, l, w')"
    and bl: "block_num l = 1 + int (length run)"
    and fl: "fs w' fn = Some (f\<lparr>content := content f @ concat (map (\<lambda>(d, a). drop 4 d) run)\<rparr>)"
    and sl: "sent w' = sent (open_wb fn w) @ zip (map ack_of [1..1 + int (length run) - 1]) (map snd run)"
    and rl: "recvs w' = recvs (open_wb fn w) + length run"
    by blast
  from well_behaved_range [OF assms] have "int (length run) < 65536" by simp
  then have "\<forall>k \<in> set [1..int (length run)]. unpack_HH (ack_of k) = Inr (4, k)"
    by (simp add: unpack_HH_ack_of)
  then have acks: "map unpack_HH (map ack_of [1..int (length run)]) =
      map (\<lambda>k. Inr (4, k)) [1..int (length run)]"
    by simp
  have "receive_data sa fn (map (\<lambda>(d, a). Datagram d a) run @ rest) w = (Exited Finished, l, w')"
    using loop by (simp add: receive_data_def)
  moreover have "file_content fn w' = Some (concat (map (\<lambda>(d, a). drop 4 d) run))"
    using fl c by (simp add: file_content_def)
  moreover have "sent w' = sent w @ zip (map ack_of [1..int (length run)]) (map snd run)"
    using sl by (simp add: open_wb_def)
  moreover have "block_num l = int (length run) + 1" using bl by simp
  moreover have "recvs w' = recvs w + length run" using rl by (simp add: open_wb_def)
  ultimately show ?thesis using acks by blast
qed

theorem well_behaved_transfer_witness:
  "well_behaved 1 [([0, 3, 0, 1] @ replicate 512 65, (''127.0.0.1'', 50000)),
                   ([0, 3, 0, 2, 66, 67], (''127.0.0.1'', 50001))] \<and>
   fst (receive_data (''127.0.0.1'', 6969) ''data.txt''
          [Datagram ([0, 3, 0, 1] @ replicate 512 65) (''127.0.0.1'', 50000),
           Datagram [0, 3, 0, 2, 66, 67] (''127.0.0.1'', 50001)]
          (new_socket Map.empty)) = Exited Finished \<and>
   file_content ''data.txt'' (snd (snd (receive_data (''127.0.0.1'', 6969) ''data.txt''
          [Datagram ([0, 3, 0, 1] @ replicate 512 65) (''127.0.0.1'', 50000),
           Datagram [0, 3, 0, 2, 66, 67] (''127.0.0.1'', 50001)]
          (new_socket Map.empty)))) = Some (replicate 512 65 @ [66, 67]) \<and>
   sent (snd (snd (receive_data (''127.0.0.1'', 6969) ''data.txt''
          [Datagram ([0, 3, 0, 1] @ replicate 512 65) (''127.0.0.1'', 50000),
           Datagram [0, 3, 0, 2, 66, 67] (''127.0.0.1'', 50001)]
          (new_socket Map.empty)))) =
     [([0, 4, 0, 1], (''127.0.0.1'', 50000)), ([0, 4, 0, 2], (''127.0.0.1'', 50001))]"
proof -
  let ?run = "[([0, 3, 0, 1] @ replicate 512 (65 :: byte), (''127.0.0.1'', 50000 :: int)),
               ([0, 3, 0, 2, 66, 67], (''127.0.0.1'', 50001))]"
  have wb: "well_behaved 1 ?run" by simp
  have up: "[1..int (length ?run)] = [1, 2]" by (simp add: upto_rec1)
  from well_behaved_transfer [OF wb, of "(''127.0.0.1'', 6969)" "''data.txt''" "[]" "new_socket Map.empty"]
  obtain l w' where r: "receive_data (''127.0.0.1'', 6969) ''data.txt''
          [Datagram ([0, 3, 0, 1] @ replicate 512 65) (''127.0.0.1'', 50000),
           Datagram [0, 3, 0, 2, 66, 67] (''127.0.0.1'', 50001)]
          (new_socket Map.empty) = (Exited Finished, l, w')"
    and c: "file_content ''data.txt'' w' = Some (concat (map (\<lambda>(d, a). drop 4 d) ?run))"
    and s: "sent w' = sent (new_socket Map.empty) @ zip (map ack_of [1..int (length ?run)]) (map snd ?run)"
    by auto
  from s have s': "sent w' = [([0, 4, 0, 1], (''127.0.0.1'', 50000)), ([0, 4, 0, 2], (''127.0.0.1'', 50001))]"
    unfolding up by (simp add: new_socket_def ack_of_def)
  from c have c': "file_content ''data.txt'' w' = Some (replicate 512 65 @ [66, 67])" by simp
  from wb r c' s' show ?thesis by simp
qed

section \<open>The expected block number\<close>

lemma unpack_HH_data_packet:
  "unpack_HH (take 4 (data_packet k payload)) = Inr (3, k mod 65536)"
proof -
  have r: "0 \<le> k mod 65536" "k mod 65536 < 65536" by simp_all
  have "k mod 256 = (k mod 65536) mod 256" by (simp add: mod_mod_cancel)
  then have "(k mod 65536) div 256 * 256 + k mod 256 = k mod 65536" by simp
  then show ?thesis
    by (simp add: data_packet_def uint_byte_div [OF r] uint_byte_mod)
qed

lemma length_data_packet: "length (data_packet k payload) = 4 + length payload"
  by (simp add: data_packet_def)

lemma drop_data_packet: "drop 4 (data_packet k payload) = payload"
  by (simp add: data_packet_def)

lemma full_segments_loop:
  assumes "block_num l = k" and "0 \<le> k" and "k + int n \<le> 65536" and "fs w fn = Some f"
  shows "\<exists>l' w' f'. receive_loop sa fn (full_segments a k n) l w = (Awaiting, l', w') \<and>
           block_num l' = k + int n \<and> fs w' fn = Some f' \<and>
           length (content f') = length (content f) + 512 * n \<and>
           length (sent w') = length (sent w) + n"
  using assms
proof (induction n arbitrary: k l w f)
  case 0
  then show ?case by simp
next
  case (Suc n)
  let ?d = "data_packet k (replicate 512 0)"
  let ?l1 = "l\<lparr>ack_packet := Some (ack_of (block_num l)), block_num := block_num l + 1,
              retries := 0\<rparr>"
  from Suc.prems have "k mod 65536 = k" by simp
  with Suc.prems(1) have u: "unpack_HH (take 4 ?d) = Inr (3, block_num l)"
    by (simp add: unpack_HH_data_packet)
  have len: "length ?d \<le> 516" "\<not> length ?d < 516" by (simp_all add: length_data_packet)
  from iteration_accept [OF u len(1) Suc.prems(4), of sa a] len(2)
  obtain w1 where it: "iteration sa fn (Datagram ?d a) l w = (Awaiting, ?l1, w1)"
    and f1: "fs w1 fn = Some (f\<lparr>content := content f @ drop 4 ?d\<rparr>)"
    and s1: "sent w1 = sent w @ [(ack_of (block_num l), a)]"
    by auto
  from Suc.prems have b1: "block_num ?l1 = k + 1" and k1: "0 \<le> k + 1"
    and n1: "k + 1 + int n \<le> 65536"
    by simp_all
  from Suc.IH [OF b1 k1 n1 f1]
  obtain l' w' f' where loop: "receive_loop sa fn (full_segments a (k + 1) n) ?l1 w1 = (Awaiting, l', w')"
    and bl: "block_num l' = k + 1 + int n" and fl: "fs w' fn = Some f'"
    and cl: "length (content f') = length (content (f\<lparr>content := content f @ drop 4 ?d\<rparr>)) + 512 * n"
    and sl: "length (sent w') = length (sent w1) + n"
    by blast
  have "receive_loop sa fn (full_segments a k (Suc n)) l w = (Awaiting, l', w')"
    using it loop by simp
  moreover have "block_num l' = k + int (Suc n)" using bl by simp
  moreover have "length (content f') = length (content f) + 512 * Suc n"
    using cl by (simp add: drop_data_packet)
  moreover have "length (sent w') = length (sent w) + Suc n" using sl s1 by simp
  ultimately show ?case using fl by blast
qed

lemma on_datagram_block_num:
  assumes "on_datagram fn data a l w = (s, l', w')"
  shows "block_num l' = block_num l \<or>
         (block_num l' = block_num l + 1 \<and> unpack_HH (take 4 data) = Inr (3, block_num l))"
proof (cases "unpack_HH (take 4 data)")
  case (Inl e)
  with assms show ?thesis by (simp add: on_datagram_def)
next
  case (Inr ob)
  obtain opcode block where ob: "ob = (opcode, block)" by (cases ob)
  show ?thesis
  proof (cases "opcode = 3 \<and> block = block_num l")
    case True
    with Inr ob have u: "unpack_HH (take 4 data) = Inr (3, block_num l)" by simp
    from assms show ?thesis unfolding on_datagram_accept [OF u] using u by auto
  next
    case False
    with Inr ob assms show ?thesis by (auto simp: on_datagram_def split: if_splits)
  qed
qed

text \<open>
  Claim C4 says that the expected block number is kept modulo 65536 and goes on
  matching the block field of the server after it has wrapped. It does not: the server
  sends 65535 full data segments, numbered 1 to 65535, which are all accepted; then
  \<open>block_num\<close> is 65536 and not 0, and the next segment, whose 16-bit block field holds
  0, is refused as out of order.
\<close>

theorem block_number_wrap_counterexample:
  "fst (receive_data (''127.0.0.1'', 6969) ''data.txt''
          (full_segments (''127.0.0.1'', 50000) 1 65535 @
           [Datagram (data_packet 65536 [72, 105]) (''127.0.0.1'', 50000)])
          (new_socket Map.empty)) = Exited OutOfOrderBlock \<and>
   block_num (fst (snd (receive_data (''127.0.0.1'', 6969) ''data.txt''
          (full_segments (''127.0.0.1'', 50000) 1 65535 @
           [Datagram (data_packet 65536 [72, 105]) (''127.0.0.1'', 50000)])
          (new_socket Map.empty)))) = 65536 \<and>
   unpack_HH (take 4 (data_packet 65536 [72, 105])) = Inr (3, 0) \<and>
   (65535 + 1) mod 65536 = (0 :: int)"
proof -
  let ?w = "open_wb ''data.txt'' (new_socket Map.empty)"
  have f: "fs ?w ''data.txt'' = Some \<lparr>content = [], readable = True\<rparr>"
    by (simp add: open_wb_def new_socket_def)
  have b: "block_num initial_locals = 1" by (simp add: initial_locals_def)
  from full_segments_loop [OF b _ _ f, of 65535 "(''127.0.0.1'', 6969)" "(''127.0.0.1'', 50000)"]
  obtain l' w' where loop: "receive_loop (''127.0.0.1'', 6969) ''data.txt''
      (full_segments (''127.0.0.1'', 50000) 1 65535) initial_locals ?w = (Awaiting, l', w')"
    and bl: "block_num l' = 65536"
    by auto
  have u: "unpack_HH (take 4 (data_packet 65536 [72, 105])) = Inr (3, 0)"
    using unpack_HH_data_packet [of 65536 "[72, 105]"] by simp
  have "length (data_packet 65536 [72, 105]) \<le> 516" by (simp add: length_data_packet)
  then have t: "take 516 (data_packet 65536 [72, 105]) = data_packet 65536 [72, 105]" by simp
  from bl have n: "0 \<noteq> block_num l'" by simp
  have it: "iteration (''127.0.0.1'', 6969) ''data.txt''
      (Datagram (data_packet 65536 [72, 105]) (''127.0.0.1'', 50000)) l' w' =
      (Exited OutOfOrderBlock, l',
       logging (Error_out_of_order 0 (block_num l')) (w'\<lparr>recvs := recvs w' + 1\<rparr>))"
    unfolding iteration_datagram t using u n by (rule on_datagram_block)
  have "receive_data (''127.0.0.1'', 6969) ''data.txt''
          (full_segments (''127.0.0.1'', 50000) 1 65535 @
           [Datagram (data_packet 65536 [72, 105]) (''127.0.0.1'', 50000)])
          (new_socket Map.empty) =
      (Exited OutOfOrderBlock, l',
       logging (Error_out_of_order 0 (block_num l')) (w'\<lparr>recvs := recvs w' + 1\<rparr>))"
    unfolding receive_data_def using receive_loop_step [OF loop it, of "[]"] by simp
  with bl u show ?thesis by simp
qed

text \<open>
  Claim C4, as the code has it. \<open>block_num\<close> starts at 1. An iteration either leaves
  it as it is or adds exactly 1 to it, and it adds 1 exactly when it accepts a data
  segment, whose block field equals \<open>block_num\<close>, which is therefore below 65536.
  \<open>block_num\<close> is an unbounded integer and is never reduced modulo 65536: once it is
  65536 or more, no block field can equal it, and every data segment ends the transfer
  as out of order.
\<close>

theorem block_number_increments:
  "block_num initial_locals = 1 \<and>
   (unpack_HH (take 4 d) = Inr (3, block_num l) \<longrightarrow>
      block_num (fst (snd (iteration sa fn (Datagram d a) l w))) = block_num l + 1 \<and>
      block_num l < 65536) \<and>
   (iteration sa fn ev l w = (s, l', w') \<longrightarrow>
      block_num l' = block_num l \<or>
      (block_num l' = block_num l + 1 \<and>
       (\<exists>d a. ev = Datagram d a \<and> unpack_HH (take 4 d) = Inr (3, block_num l)))) \<and>
   (65536 \<le> block_num l \<longrightarrow> unpack_HH (take 4 d') = Inr (3, b) \<longrightarrow>
      iteration sa fn (Datagram d' a') l w =
        (Exited OutOfOrderBlock, l,
         logging (Error_out_of_order b (block_num l)) (w\<lparr>recvs := recvs w + 1\<rparr>)))"
proof (intro conjI impI)
  show "block_num initial_locals = 1" by (simp add: initial_locals_def)
next
  assume u: "unpack_HH (take 4 d) = Inr (3, block_num l)"
  then have "unpack_HH (take 4 (take 516 d)) = Inr (3, block_num l)" by simp
  then show "block_num (fst (snd (iteration sa fn (Datagram d a) l w))) = block_num l + 1"
    by (simp add: iteration_datagram on_datagram_accept)
  from unpack_HH_range [OF u] show "block_num l < 65536" by simp
next
  assume it: "iteration sa fn ev l w = (s, l', w')"
  show "block_num l' = block_num l \<or>
      (block_num l' = block_num l + 1 \<and>
       (\<exists>d a. ev = Datagram d a \<and> unpack_HH (take 4 d) = Inr (3, block_num l)))"
  proof (cases ev)
    case Timeout
    with it have "on_timeout sa l (w\<lparr>recvs := recvs w + 1\<rparr>) = (s, l', w')"
      by (simp add: iteration_timeout)
    from on_timeout_retries [OF this] show ?thesis by simp
  next
    case (Datagram d a)
    with it have "on_datagram fn (take 516 d) a l (w\<lparr>recvs := recvs w + 1\<rparr>) = (s, l', w')"
      by (simp add: iteration_datagram)
    from on_datagram_block_num [OF this] Datagram show ?thesis by auto
  qed
next
  assume big: "65536 \<le> block_num l" and u: "unpack_HH (take 4 d') = Inr (3, b)"
  from unpack_HH_range [OF u] big have n: "b \<noteq> block_num l" by simp
  from u have "unpack_HH (take 4 (take 516 d')) = Inr (3, b)" by simp
  then show "iteration sa fn (Datagram d' a') l w =
        (Exited OutOfOrderBlock, l,
         logging (Error_out_of_order b (block_num l)) (w\<lparr>recvs := recvs w + 1\<rparr>))"
    unfolding iteration_datagram using n by (rule on_datagram_block)
qed

theorem block_number_increments_witness:
  "unpack_HH (take 4 [0, 3, 255, 255]) = Inr (3, block_num (initial_locals\<lparr>block_num := 65535\<rparr>)) \<and>
   iteration (''127.0.0.1'', 6969) ''data.txt'' (Datagram [0, 3, 255, 255] (''127.0.0.1'', 50000))
       (initial_locals\<lparr>block_num := 65535\<rparr>) (new_socket Map.empty) =
     (Exited Finished,
      \<lparr>block_num = 65536, retries = 0, ack_packet = Some [0, 4, 255, 255]\<rparr>,
      snd (snd (iteration (''127.0.0.1'', 6969) ''data.txt''
        (Datagram [0, 3, 255, 255] (''127.0.0.1'', 50000))
        (initial_locals\<lparr>block_num := 65535\<rparr>) (new_socket Map.empty)))) \<and>
   block_num \<lparr>block_num = 65536, retries = 0, ack_packet = Some [0, 4, 255, 255]\<rparr> =
     block_num (initial_locals\<lparr>block_num := 65535\<rparr>) + 1 \<and>
   65536 \<le> block_num \<lparr>block_num = 65536, retries = 0, ack_packet = Some [0, 4, 255, 255]\<rparr> \<and>
   unpack_HH (take 4 [0, 3, 0, 0, 72, 105]) = Inr (3, 0) \<and>
   fst (iteration (''127.0.0.1'', 6969) ''data.txt'' (Datagram [0, 3, 0, 0, 72, 105] (''127.0.0.1'', 50000))
       \<lparr>block_num = 65536, retries = 0, ack_packet = Some [0, 4, 255, 255]\<rparr>
       (new_socket Map.empty)) = Exited OutOfOrderBlock"
proof -
  let ?l = "initial_locals\<lparr>block_num := 65535\<rparr>"
  let ?l' = "\<lparr>block_num = 65536, retries = 0, ack_packet = Some [0, 4, 255, 255]\<rparr>"
  let ?it = "iteration (''127.0.0.1'', 6969) ''data.txt''
      (Datagram [0, 3, 255, 255] (''127.0.0.1'', 50000)) ?l (new_socket Map.empty)"
  have u: "unpack_HH (take 4 [0, 3, 255, 255]) = Inr (3, block_num ?l)" by simp
  have u0: "unpack_HH (take 4 [0, 3, 0, 0, 72, 105]) = Inr (3, 0)" by simp
  have big: "65536 \<le> block_num ?l'" by simp
  have "unpack_HH (take 4 (take 516 [0, 3, 255, 255])) = Inr (3, block_num ?l)" by simp
  then have it: "?it = (Exited Finished, ?l', snd (snd ?it))"
    by (simp add: iteration_datagram on_datagram_accept ack_of_def initial_locals_def)
  note t = block_number_increments [where l = ?l and d = "[0, 3, 255, 255]"
      and sa = "(''127.0.0.1'', 6969)" and fn = "''data.txt''" and a = "(''127.0.0.1'', 50000)"
      and w = "new_socket Map.empty" and ev = "Datagram [0, 3, 255, 255] (''127.0.0.1'', 50000)"
      and s = "Exited Finished" and l' = ?l' and w' = "snd (snd ?it)"]
  from t u have inc: "block_num ?l' = block_num ?l + 1" by simp
  note t' = block_number_increments [where l = ?l' and d' = "[0, 3, 0, 0, 72, 105]" and b = 0
      and sa = "(''127.0.0.1'', 6969)" and fn = "''data.txt''" and a' = "(''127.0.0.1'', 50000)"
      and w = "new_socket Map.empty"]
  from t' big u0 have "fst (iteration (''127.0.0.1'', 6969) ''data.txt''
       (Datagram [0, 3, 0, 0, 72, 105] (''127.0.0.1'', 50000)) ?l' (new_socket Map.empty)) =
       Exited OutOfOrderBlock"
    by simp
  with u it inc big u0 show ?thesis by simp
qed

section \<open>Evaluating runs\<close>

lemmas run_defs = receive_data_def iteration_def on_datagram_def on_timeout_def pack_HH_def
  pack_H_def initial_locals_def max_retries_def Let_def

lemmas main_defs = main_def send_rrq_def isfile_def access_R_OK_def file_content_def

section \<open>Where acknowledgments are sent\<close>

text \<open>
  Claim C5 says that every acknowledgment, also the one repeated after a timeout, goes
  to the address the last data segment came from. The acknowledgment of an accepted
  segment does (\<open>iteration_accept\<close>). The repeated one does not: the server at port
  6969 answers from port 50000 with a full first block and then falls silent; the
  acknowledgment of block 1 goes to port 50000, and after the timeout the same
  acknowledgment goes to \<open>server_address\<close>, port 6969.
\<close>

theorem retransmitted_ack_destination:
  "sent (snd (snd (receive_data (''127.0.0.1'', 6969) ''data.txt''
      [Datagram ([0, 3, 0, 1] @ replicate 512 65) (''127.0.0.1'', 50000), Timeout]
      (new_socket Map.empty)))) =
     [([0, 4, 0, 1], (''127.0.0.1'', 50000)), ([0, 4, 0, 1], (''127.0.0.1'', 6969))] \<and>
   fst (receive_data (''127.0.0.1'', 6969) ''data.txt''
      [Datagram ([0, 3, 0, 1] @ replicate 512 65) (''127.0.0.1'', 50000), Timeout]
      (new_socket Map.empty)) = Awaiting"
  by (simp add: run_defs world_ops)

section \<open>A request whose local check fails\<close>

lemma send_rrq_not_sent:
  "\<not> isfile filename w \<or> \<not> access_R_OK filename w \<Longrightarrow>
   sent (send_rrq sa filename w) = sent w \<and> recvs (send_rrq sa filename w) = recvs w \<and>
   printed (send_rrq sa filename w) =
     printed w @ [if isfile filename w then Print_no_permission filename
                  else Print_not_exist filename]"
  by (auto simp: send_rrq_def print_def)

lemma timeouts_send_nothing:
  "ack_packet l = None \<Longrightarrow>
   sent (snd (snd (receive_loop sa fn (replicate n Timeout) l w))) = sent w"
proof (induction n arbitrary: l w)
  case 0
  then show ?case by simp
next
  case (Suc n)
  let ?l1 = "l\<lparr>retries := retries l + 1\<rparr>"
  let ?w1 = "logging (Warning_retrying (retries l + 1) max_retries) (w\<lparr>recvs := recvs w + 1\<rparr>)"
  show ?case
  proof (cases "retries l + 1 > max_retries")
    case True
    with Suc.prems show ?thesis
      by (simp add: iteration_timeout on_timeout_def logging_def)
  next
    case False
    with Suc.prems have it: "iteration sa fn Timeout l w = (Awaiting, ?l1, ?w1)"
      by (simp add: iteration_timeout on_timeout_def Let_def)
    from Suc.prems have "ack_packet ?l1 = None" by simp
    from Suc.IH [OF this, of ?w1] it show ?thesis
      by (simp add: logging_def)
  qed
qed

lemma failed_check_sends_nothing:
  assumes "args_m args = ''rx''"
    and "\<not> isfile (args_file args) (new_socket files) \<or>
         \<not> access_R_OK (args_file args) (new_socket files)"
  shows "sent (snd (main args files (replicate n Timeout))) = []"
proof -
  let ?sa = "(''127.0.0.1'', args_p args)"
  let ?w0 = "(new_socket files)\<lparr>sock_timeout := Some 2\<rparr>"
  from assms(2) have "\<not> isfile (args_file args) ?w0 \<or> \<not> access_R_OK (args_file args) ?w0"
    by (simp add: isfile_def access_R_OK_def new_socket_def)
  from send_rrq_not_sent [OF this, of ?sa]
  have s: "sent (send_rrq ?sa (args_file args) ?w0) = []" by (simp add: new_socket_def)
  have a: "ack_packet initial_locals = None" by (simp add: initial_locals_def)
  obtain st l w where r: "receive_data ?sa (args_file args) (replicate n Timeout)
      (send_rrq ?sa (args_file args) ?w0) = (st, l, w)"
    by (cases "receive_data ?sa (args_file args) (replicate n Timeout)
      (send_rrq ?sa (args_file args) ?w0)") auto
  from timeouts_send_nothing [OF a, of ?sa "args_file args" n
      "open_wb (args_file args) (send_rrq ?sa (args_file args) ?w0)"] r s
  have "sent w = []" by (simp add: receive_data_def open_wb_def)
  with assms(1) r show ?thesis by (simp add: main_def Let_def)
qed

text \<open>
  Claim C7 says that no network activity of any kind follows a failed local check.
  \<open>send_rrq\<close> prints the diagnostic, sends nothing and returns normally
  (\<open>send_rrq_not_sent\<close>), so \<open>main\<close> calls \<open>receive_data\<close> all the same. The socket
  has sent nothing and is bound to no port, so no datagram reaches it and every
  \<open>recvfrom\<close> times out; on such a run no datagram is sent at all
  (\<open>failed_check_sends_nothing\<close>). But the transfer engine does run: for a file that
  does not exist, \<open>main\<close> creates the file, calls \<open>recvfrom\<close> four times, each
  waiting for the timeout of the socket, and ends with the maximum of retries reached.
\<close>

theorem failed_precondition_still_receives:
  "main \<lparr>args_file = ''missing.txt'', args_m = ''rx'', args_p = 6969\<rparr> Map.empty
       [Timeout, Timeout, Timeout, Timeout] =
     (Some (Exited MaxRetriesExceeded),
      \<lparr>fs = [''missing.txt'' \<mapsto> \<lparr>content = [], readable = True\<rparr>], sent = [], recvs = 4,
       printed = [Print_not_exist ''missing.txt''],
       logged = [Warning_retrying 1 3, Warning_retrying 2 3, Warning_retrying 3 3,
                 Error_max_retries],
       sock_timeout = Some 2, sock_closed = True\<rparr>)"
  by (simp add: run_defs main_defs world_ops)

section \<open>What receive_data returns\<close>

lemma on_timeout_Exited:
  "on_timeout sa l w = (Exited b, l', w') \<Longrightarrow>
   logged w' \<noteq> [] \<and> reports b (last (logged w'))"
  by (auto simp: on_timeout_def logging_def sendto_def Let_def split: if_splits option.splits)

lemma on_datagram_Exited:
  assumes "on_datagram fn data a l w = (Exited b, l', w')"
  shows "logged w' \<noteq> [] \<and> reports b (last (logged w'))"
proof (cases "unpack_HH (take 4 data)")
  case (Inl e)
  with assms show ?thesis by (simp add: on_datagram_def)
next
  case (Inr ob)
  obtain opcode block where ob: "ob = (opcode, block)" by (cases ob)
  show ?thesis
  proof (cases "opcode = 3 \<and> block = block_num l")
    case True
    with Inr ob have u: "unpack_HH (take 4 data) = Inr (3, block_num l)" by simp
    from assms show ?thesis unfolding on_datagram_accept [OF u]
      by (auto simp: logging_def split: if_splits)
  next
    case False
    with Inr ob assms show ?thesis
      by (auto simp: on_datagram_def logging_def split: if_splits)
  qed
qed

lemma iteration_Exited:
  assumes "iteration sa fn ev l w = (Exited b, l', w')"
  shows "logged w' \<noteq> [] \<and> reports b (last (logged w'))"
proof (cases ev)
  case Timeout
  with assms show ?thesis by (simp add: iteration_timeout on_timeout_Exited)
next
  case (Datagram d a)
  with assms show ?thesis by (simp add: iteration_datagram on_datagram_Exited)
qed

lemma receive_loop_Exited:
  "receive_loop sa fn evs l w = (Exited b, l', w') \<Longrightarrow>
   logged w' \<noteq> [] \<and> reports b (last (logged w'))"
proof (induction evs arbitrary: l w)
  case Nil
  then show ?case by simp
next
  case (Cons ev evs)
  obtain s l1 w1 where it: "iteration sa fn ev l w = (s, l1, w1)"
    by (cases "iteration sa fn ev l w") auto
  show ?case
  proof (cases s)
    case Awaiting
    with it Cons.prems have "receive_loop sa fn evs l1 w1 = (Exited b, l', w')" by simp
    then show ?thesis by (rule Cons.IH)
  next
    case (Exited b')
    with it Cons.prems have "iteration sa fn ev l w = (Exited b, l', w')" by simp
    then show ?thesis by (rule iteration_Exited)
  next
    case (Raised e)
    with it Cons.prems show ?thesis by simp
  qed
qed

text \<open>
  The loop cannot go on for ever. Each iteration that stays in the loop either accepts
  a segment, which raises \<open>block_num\<close>, at most 65535 by then, or is one of at most
  three timeouts in a row. So \<open>4 * (65536 - block_num) + (3 - retries)\<close> falls with
  every such iteration, and after 262144 events at the latest the loop has been left.
\<close>

lemma iteration_Awaiting_measure:
  assumes "iteration sa fn ev l w = (Awaiting, l', w')"
    and "block_num l \<le> 65536" and "retries l \<le> 3"
  shows "block_num l' \<le> 65536 \<and> retries l' \<le> 3 \<and>
         4 * (65536 - block_num l') + (3 - retries l') < 4 * (65536 - block_num l) + (3 - retries l)"
proof (cases ev)
  case Timeout
  with assms(1) have "on_timeout sa l (w\<lparr>recvs := recvs w + 1\<rparr>) = (Awaiting, l', w')"
    by (simp add: iteration_timeout)
  from on_timeout_retries [OF this] assms(2,3) show ?thesis
    by (auto split: if_splits)
next
  case (Datagram d a)
  with assms(1) have od: "on_datagram fn (take 516 d) a l (w\<lparr>recvs := recvs w + 1\<rparr>) = (Awaiting, l', w')"
    by (simp add: iteration_datagram)
  show ?thesis
  proof (cases "unpack_HH (take 4 (take 516 d))")
    case (Inl e)
    with od show ?thesis by (simp add: on_datagram_def)
  next
    case (Inr ob)
    obtain opcode block where ob: "ob = (opcode, block)" by (cases ob)
    show ?thesis
    proof (cases "opcode = 3 \<and> block = block_num l")
      case True
      with Inr ob have u: "unpack_HH (take 4 (take 516 d)) = Inr (3, block_num l)" by simp
      from unpack_HH_range [OF u] have "block_num l < 65536" by simp
      moreover from od have "block_num l' = block_num l + 1" "retries l' = 0"
        unfolding on_datagram_accept [OF u] by auto
      ultimately show ?thesis using assms(3) by simp
    next
      case False
      with Inr ob od show ?thesis by (auto simp: on_datagram_def split: if_splits)
    qed
  qed
qed

lemma receive_loop_Awaiting_length:
  "receive_loop sa fn evs l w = (Awaiting, l', w') \<Longrightarrow>
   block_num l \<le> 65536 \<Longrightarrow> retries l \<le> 3 \<Longrightarrow>
   int (length evs) \<le> 4 * (65536 - block_num l) + (3 - retries l)"
proof (induction evs arbitrary: l w)
  case Nil
  then show ?case by simp
next
  case (Cons ev evs)
  obtain s l1 w1 where it: "iteration sa fn ev l w = (s, l1, w1)"
    by (cases "iteration sa fn ev l w") auto
  show ?case
  proof (cases s)
    case Awaiting
    with it Cons.prems(1) have loop: "receive_loop sa fn evs l1 w1 = (Awaiting, l', w')" by simp
    from it Awaiting have "iteration sa fn ev l w = (Awaiting, l1, w1)" by simp
    from iteration_Awaiting_measure [OF this Cons.prems(2,3)]
    have inv: "block_num l1 \<le> 65536" "retries l1 \<le> 3"
      and less: "4 * (65536 - block_num l1) + (3 - retries l1) <
                 4 * (65536 - block_num l) + (3 - retries l)"
      by simp_all
    from Cons.IH [OF loop inv] less show ?thesis by simp
  next
    case (Exited b)
    with it Cons.prems(1) show ?thesis by simp
  next
    case (Raised e)
    with it Cons.prems(1) show ?thesis by simp
  qed
qed

lemma receive_data_leaves_loop:
  assumes "262144 \<le> length evs"
  shows "fst (receive_data sa fn evs w) \<noteq> Awaiting"
proof
  assume a: "fst (receive_data sa fn evs w) = Awaiting"
  then obtain l' w' where "receive_loop sa fn evs initial_locals (open_wb fn w) = (Awaiting, l', w')"
    unfolding receive_data_def
    by (cases "receive_loop sa fn evs initial_locals (open_wb fn w)") auto
  from receive_loop_Awaiting_length [OF this]
  have "int (length evs) \<le> 4 * (65536 - 1) + (3 - 0)" by (simp add: initial_locals_def)
  with assms show False by simp
qed

text \<open>
  Claim C8 says that \<open>receive_data\<close> returns the number of bytes written on success and
  the kind of failure otherwise. It returns \<open>None\<close> in both cases: a transfer of one
  segment that writes two bytes returns \<open>None\<close> and not 2, and a transfer ended by an
  unexpected opcode returns \<open>None\<close> as well.
\<close>

theorem return_value_counterexample:
  "fst (receive_data (''127.0.0.1'', 6969) ''data.txt''
          [Datagram [0, 3, 0, 1, 72, 105] (''127.0.0.1'', 50000)] (new_socket Map.empty)) =
     Exited Finished \<and>
   file_content ''data.txt'' (snd (snd (receive_data (''127.0.0.1'', 6969) ''data.txt''
          [Datagram [0, 3, 0, 1, 72, 105] (''127.0.0.1'', 50000)] (new_socket Map.empty)))) =
     Some [72, 105] \<and>
   return_value (fst (receive_data (''127.0.0.1'', 6969) ''data.txt''
          [Datagram [0, 3, 0, 1, 72, 105] (''127.0.0.1'', 50000)] (new_socket Map.empty))) =
     Some PyNone \<and>
   Some PyNone \<noteq> Some (PyInt 2) \<and>
   fst (receive_data (''127.0.0.1'', 6969) ''data.txt''
          [Datagram [0, 5, 0, 1] (''127.0.0.1'', 50000)] (new_socket Map.empty)) =
     Exited UnexpectedOpcode \<and>
   return_value (fst (receive_data (''127.0.0.1'', 6969) ''data.txt''
          [Datagram [0, 5, 0, 1] (''127.0.0.1'', 50000)] (new_socket Map.empty))) =
     Some PyNone"
  by (simp add: run_defs world_ops file_content_def)

text \<open>
  Claim C8, as the code has it. \<open>receive_data\<close> does leave its loop, whatever the
  server does: after 262144 events at the latest it is no longer waiting. Whenever it
  leaves the loop through a \<open>break\<close>, after a finished transfer or after any of the
  three failures, it returns \<open>None\<close> to its caller. How the transfer ended is told by
  the log alone: its last record is the one of that \<open>break\<close>. When an exception leaves
  the loop, nothing is returned.
\<close>

theorem receive_data_returns_None:
  "(262144 \<le> length evs \<longrightarrow> fst (receive_data sa fn evs w) \<noteq> Awaiting) \<and>
   (receive_data sa fn evs w = (Exited b, l, w') \<longrightarrow>
      return_value (fst (receive_data sa fn evs w)) = Some PyNone \<and>
      logged w' \<noteq> [] \<and> reports b (last (logged w'))) \<and>
   (receive_data sa fn evs w = (Raised e, l, w') \<longrightarrow>
      return_value (fst (receive_data sa fn evs w)) = None)"
proof (intro conjI impI)
  assume "262144 \<le> length evs"
  then show "fst (receive_data sa fn evs w) \<noteq> Awaiting" by (rule receive_data_leaves_loop)
next
  assume r: "receive_data sa fn evs w = (Exited b, l, w')"
  then have "receive_loop sa fn evs initial_locals (open_wb fn w) = (Exited b, l, w')"
    by (simp add: receive_data_def)
  from receive_loop_Exited [OF this]
  show "logged w' \<noteq> []" and "reports b (last (logged w'))" by simp_all
  from r show "return_value (fst (receive_data sa fn evs w)) = Some PyNone" by simp
next
  assume "receive_data sa fn evs w = (Raised e, l, w')"
  then show "return_value (fst (receive_data sa fn evs w)) = None" by simp
qed

theorem receive_data_returns_None_witness:
  "262144 \<le> length (replicate 262144 Timeout) \<and>
   fst (receive_data (''127.0.0.1'', 6969) ''data.txt'' (replicate 262144 Timeout)
       (new_socket Map.empty)) \<noteq> Awaiting \<and>
   receive_data (''127.0.0.1'', 6969) ''data.txt'' [Timeout, Timeout, Timeout, Timeout]
       (new_socket Map.empty) =
     (Exited MaxRetriesExceeded, initial_locals\<lparr>retries := 4\<rparr>,
      \<lparr>fs = [''data.txt'' \<mapsto> \<lparr>content = [], readable = True\<rparr>], sent = [], recvs = 4,
       printed = [],
       logged = [Warning_retrying 1 3, Warning_retrying 2 3, Warning_retrying 3 3,
                 Error_max_retries],
       sock_timeout = None, sock_closed = False\<rparr>) \<and>
   return_value (fst (receive_data (''127.0.0.1'', 6969) ''data.txt''
       [Timeout, Timeout, Timeout, Timeout] (new_socket Map.empty))) = Some PyNone \<and>
   reports MaxRetriesExceeded (last [Warning_retrying 1 3, Warning_retrying 2 3,
       Warning_retrying 3 3, Error_max_retries]) \<and>
   receive_data (''127.0.0.1'', 6969) ''data.txt'' [Datagram [0, 3] (''127.0.0.1'', 50000)]
       (new_socket Map.empty) =
     (Raised StructError, initial_locals,
      \<lparr>fs = [''data.txt'' \<mapsto> \<lparr>content = [], readable = True\<rparr>], sent = [], recvs = 1,
       printed = [], logged = [], sock_timeout = None, sock_closed = False\<rparr>) \<and>
   return_value (fst (receive_data (''127.0.0.1'', 6969) ''data.txt''
       [Datagram [0, 3] (''127.0.0.1'', 50000)] (new_socket Map.empty))) = None"
proof -
  let ?w4 = "\<lparr>fs = [''data.txt'' \<mapsto> \<lparr>content = [], readable = True\<rparr>], sent = [], recvs = 4,
       printed = [],
       logged = [Warning_retrying 1 3, Warning_retrying 2 3, Warning_retrying 3 3,
                 Error_max_retries],
       sock_timeout = None, sock_closed = False\<rparr>"
  let ?w1 = "\<lparr>fs = [''data.txt'' \<mapsto> \<lparr>content = [], readable = True\<rparr>], sent = [], recvs = 1,
       printed = [], logged = [], sock_timeout = None, sock_closed = False\<rparr>"
  have n: "262144 \<le> length (replicate 262144 Timeout)" by simp
  have h: "receive_data (''127.0.0.1'', 6969) ''data.txt'' [Timeout, Timeout, Timeout, Timeout]
       (new_socket Map.empty) = (Exited MaxRetriesExceeded, initial_locals\<lparr>retries := 4\<rparr>, ?w4)"
    by (simp add: run_defs world_ops)
  have x: "receive_data (''127.0.0.1'', 6969) ''data.txt'' [Datagram [0, 3] (''127.0.0.1'', 50000)]
       (new_socket Map.empty) = (Raised StructError, initial_locals, ?w1)"
    by (simp add: run_defs world_ops)
  from receive_data_returns_None [where evs = "replicate 262144 Timeout"
      and sa = "(''127.0.0.1'', 6969)" and fn = "''data.txt''" and w = "new_socket Map.empty"] n
  have a: "fst (receive_data (''127.0.0.1'', 6969) ''data.txt'' (replicate 262144 Timeout)
       (new_socket Map.empty)) \<noteq> Awaiting"
    by blast
  from receive_data_returns_None [where evs = "[Timeout, Timeout, Timeout, Timeout]"
      and sa = "(''127.0.0.1'', 6969)" and fn = "''data.txt''" and w = "new_socket Map.empty"
      and b = MaxRetriesExceeded and l = "initial_locals\<lparr>retries := 4\<rparr>" and w' = ?w4] h
  have b: "return_value (fst (receive_data (''127.0.0.1'', 6969) ''data.txt''
       [Timeout, Timeout, Timeout, Timeout] (new_socket Map.empty))) = Some PyNone"
    and c: "reports MaxRetriesExceeded (last (logged ?w4))"
    by blast+
  from receive_data_returns_None [where evs = "[Datagram [0, 3] (''127.0.0.1'', 50000)]"
      and sa = "(''127.0.0.1'', 6969)" and fn = "''data.txt''" and w = "new_socket Map.empty"
      and e = StructError and l = initial_locals and w' = ?w1] x
  have d: "return_value (fst (receive_data (''127.0.0.1'', 6969) ''data.txt''
       [Datagram [0, 3] (''127.0.0.1'', 50000)] (new_socket Map.empty))) = None"
    by blast
  from c have c': "reports MaxRetriesExceeded (last [Warning_retrying 1 3, Warning_retrying 2 3,
       Warning_retrying 3 3, Error_max_retries])" by simp
  from n a h b c' x d show ?thesis by blast
qed

section \<open>The output file is the requested file\<close>

text \<open>
  Claim C10. In mode \<open>rx\<close>, \<open>main\<close> gives \<open>args.file\<close> to \<open>send_rrq\<close>, which checks
  that the file exists and can be read, and to \<open>receive_data\<close>, which opens it with
  mode \<open>wb\<close>. So when the loop waits for its first datagram, nothing received yet, the
  file of that name is empty, whatever it held; if the check had passed, the read
  request for that name has been sent. Every call of \<open>receive_data\<close> empties its
  output file in this way, and nothing that \<open>main\<close> does afterwards depends on what
  the file held.
\<close>

theorem output_file_is_request_file:
  assumes "args_m args = ''rx''"
  shows "fst (main args files []) = Some Awaiting \<and>
         recvs (snd (main args files [])) = 0 \<and>
         file_content (args_file args) (snd (main args files [])) = Some [] \<and>
         (files (args_file args) = Some f \<longrightarrow> readable f \<longrightarrow>
            sent (snd (main args files [])) =
              [(rrq_packet (args_file args), (''127.0.0.1'', args_p args))]) \<and>
         file_content fn (snd (snd (receive_data sa fn [] w))) = Some [] \<and>
         main args (files(args_file args \<mapsto> f\<lparr>content := c\<rparr>)) evs =
           main args (files(args_file args \<mapsto> f)) evs"
  using assms
  by (auto simp: main_defs receive_data_def world_ops Let_def split: option.splits)

theorem output_file_is_request_file_witness:
  "args_m default_arguments = ''rx'' \<and>
   [''data.txt'' \<mapsto> \<lparr>content = [72, 105], readable = True\<rparr>] (args_file default_arguments) =
     Some \<lparr>content = [72, 105], readable = True\<rparr> \<and>
   readable \<lparr>content = [72, 105], readable = True\<rparr> \<and>
   fst (main default_arguments [''data.txt'' \<mapsto> \<lparr>content = [72, 105], readable = True\<rparr>] []) =
     Some Awaiting \<and>
   sent (snd (main default_arguments
       [''data.txt'' \<mapsto> \<lparr>content = [72, 105], readable = True\<rparr>] [])) =
     [(rrq_packet ''data.txt'', (''127.0.0.1'', 6969))] \<and>
   file_content ''data.txt'' (snd (main default_arguments
       [''data.txt'' \<mapsto> \<lparr>content = [72, 105], readable = True\<rparr>] [])) = Some []"
proof -
  let ?f = "\<lparr>content = [72, 105], readable = True\<rparr>"
  let ?files = "[''data.txt'' \<mapsto> ?f]"
  have m: "args_m default_arguments = ''rx''" by (simp add: default_arguments_def)
  have e: "?files (args_file default_arguments) = Some ?f" by (simp add: default_arguments_def)
  have r: "readable ?f" by simp
  note t = output_file_is_request_file [OF m, where files = ?files and f = ?f]
  from t have a: "fst (main default_arguments ?files []) = Some Awaiting" by blast
  from t e r have b: "sent (snd (main default_arguments ?files [])) =
      [(rrq_packet (args_file default_arguments), (''127.0.0.1'', args_p default_arguments))]"
    by blast
  from t have c: "file_content (args_file default_arguments) (snd (main default_arguments ?files [])) =
      Some []" by blast
  from b have b': "sent (snd (main default_arguments ?files [])) =
      [(rrq_packet ''data.txt'', (''127.0.0.1'', 6969))]"
    by (simp add: default_arguments_def)
  from c have c': "file_content ''data.txt'' (snd (main default_arguments ?files [])) = Some []"
    by (simp add: default_arguments_def)
  from m e r a b' c' show ?thesis by simp
qed

end
